theory Spec2Isabelle
  imports Complex_Main "HOL-Library.AList"
begin

section \<open>Expression nodes, constraints and problems\<close>

text \<open>
  The classes of expression nodes that \<^verbatim>\<open>atom_canonicalizers/__init__.py\<close> imports and uses
  as keys of \<^verbatim>\<open>CANON_METHODS\<close>. The names \<^verbatim>\<open>exp\<close>, \<^verbatim>\<open>log\<close> and \<^verbatim>\<open>power\<close> carry the suffix
  \<^verbatim>\<open>_atom\<close>. Every other class of node (the comment above the table lists
  \<^verbatim>\<open>sum_smallest\<close>, \<^verbatim>\<open>minimum\<close> and \<^verbatim>\<open>cumsum\<close>) is \<open>Other_atom\<close> with its name.
\<close>

datatype atom_type =
    AddExpression
  | Constant
  | DivExpression
  | exp_atom
  | eye_minus_inv
  | geo_mean
  | log_atom
  | MulExpression
  | multiply
  | one_minus
  | pnorm
  | power_atom
  | trace
  | Variable
  | maximum
  | sum_largest
  | Other_atom string

text \<open>
  An expression node: its class, the identity of the Python object (\<open>expr_obj\<close>, what
  \<^verbatim>\<open>is\<close> compares), the attributes \<^verbatim>\<open>shape\<close> and \<^verbatim>\<open>id\<close> that \<^verbatim>\<open>variable_canon\<close> reads, the
  attributes given at construction (\<^verbatim>\<open>nonneg\<close>, \<^verbatim>\<open>pos\<close>, ...) and the children \<^verbatim>\<open>args\<close>.
\<close>

datatype expr =
  Expr (expr_type: atom_type) (expr_obj: nat) (shape: "nat list") (expr_id: nat)
       (attributes: "string list") (expr_args: "expr list")

text \<open>
  A constraint of the original problem is a mutable object: \<^verbatim>\<open>args\<close>, \<^verbatim>\<open>_lhs\<close>, \<^verbatim>\<open>_rhs\<close>,
  and the attribute \<^verbatim>\<open>_old_args\<close> that \<^verbatim>\<open>apply\<close> sets and deletes (\<open>None\<close>: the object has
  no such attribute). Constraint objects live in a store indexed by reference; a problem
  holds the list of references \<^verbatim>\<open>_constraints\<close>, so the same object may be listed twice.
\<close>

record constraint =
  relop :: string
  args :: "expr list"
  priv_lhs :: expr
  priv_rhs :: expr
  priv_old_args :: "expr list option"

type_synonym store = "nat \<Rightarrow> constraint"

record problem =
  objective :: expr
  priv_constraints :: "nat list"

text \<open>A constraint of the rewritten problem is a new object, kept by value.\<close>

datatype new_constraint = New_constraint string "expr list"

record canon_problem =
  canon_objective :: expr
  canon_constraints :: "new_constraint list"

datatype error =
    ValueError string
  | KeyError atom_type
  | AttributeError string
  | TypeError string

text \<open>
  The spec's names for the two failures: \<^verbatim>\<open>apply\<close> raises
  \<^verbatim>\<open>ValueError("The supplied problem is not log-log DCP.")\<close>, and a dictionary lookup of a
  missing key raises \<^verbatim>\<open>KeyError\<close>.
\<close>

definition DisciplineViolation :: error where
  "DisciplineViolation = ValueError ''The supplied problem is not log-log DCP.''"


section \<open>The rewrite table and \<^verbatim>\<open>DgpCanonMethods\<close>\<close>

text \<open>
  The values of the table are the names the source writes; \<open>PyNone\<close> is Python's \<^verbatim>\<open>None\<close>,
  \<open>PWL_METHODS k\<close> is \<^verbatim>\<open>PWL_METHODS[k]\<close>, and \<open>bound_variable_canon\<close> is the bound method
  \<^verbatim>\<open>self.variable_canon\<close> that \<^verbatim>\<open>__getitem__\<close> returns. Line 19 of the source imports the
  name \<^verbatim>\<open>exp\<close> from the module \<^verbatim>\<open>exp_canon\<close>, so the key \<^verbatim>\<open>exp\<close> and the value \<^verbatim>\<open>exp_canon\<close>
  of line 40 are what that import binds; the table keeps both names as written, and no
  statement below depends on what they denote.
\<close>

datatype canon_method =
    add_canon
  | constant_canon
  | div_canon
  | exp_canon
  | eye_minus_inv_canon
  | geo_mean_canon
  | log_canon
  | mulexpression_canon
  | mul_canon
  | one_minus_canon
  | pnorm_canon
  | power_canon
  | trace_canon
  | PyNone
  | PWL_METHODS atom_type
  | bound_variable_canon

text \<open>
  The dictionary in the order of the source; the two assignments after the literal add
  their keys at the end.
\<close>

definition CANON_METHODS :: "(atom_type \<times> canon_method) list" where
  "CANON_METHODS =
    [(AddExpression, add_canon),
     (Constant, constant_canon),
     (DivExpression, div_canon),
     (exp_atom, exp_canon),
     (eye_minus_inv, eye_minus_inv_canon),
     (geo_mean, geo_mean_canon),
     (log_atom, log_canon),
     (MulExpression, mulexpression_canon),
     (multiply, mul_canon),
     (one_minus, one_minus_canon),
     (pnorm, pnorm_canon),
     (power_atom, power_canon),
     (trace, trace_canon),
     (Variable, PyNone),
     (maximum, PWL_METHODS maximum),
     (sum_largest, PWL_METHODS sum_largest)]"

text \<open>
  An instance of \<^verbatim>\<open>DgpCanonMethods\<close>: the items of the \<^verbatim>\<open>dict\<close> it inherits from (what
  \<^verbatim>\<open>super().__init__(*args, **kwargs)\<close> stores) and the cache \<^verbatim>\<open>_variables\<close>, a dictionary
  in insertion order.
\<close>

record DgpCanonMethods =
  dict_items :: "(atom_type \<times> canon_method) list"
  priv_variables :: "(nat \<times> expr) list"

definition DgpCanonMethods_init :: "(atom_type \<times> canon_method) list \<Rightarrow> DgpCanonMethods" where
  "DgpCanonMethods_init items = \<lparr>dict_items = items, priv_variables = []\<rparr>"


definition DgpCanonMethods_getitem :: "DgpCanonMethods \<Rightarrow> atom_type \<Rightarrow> error + canon_method" where
  "DgpCanonMethods_getitem self key =
    (if key = Variable then Inr bound_variable_canon
     else (case map_of CANON_METHODS key of
             None \<Rightarrow> Inl (KeyError key)
           | Some m \<Rightarrow> Inr m))"

text \<open>
  Modelled from the spec: the hash and equality of \<^verbatim>\<open>Variable\<close> objects as dictionary keys
  (class \<^verbatim>\<open>Variable\<close> is not among the source files). The spec's data model: two variable
  nodes with the same identifier denote the same decision variable, and the cache maps the
  identifier of the original variable to its log-space variable.
\<close>

definition var_key :: "expr \<Rightarrow> nat" where
  "var_key e = expr_id e"

text \<open>
  \<^verbatim>\<open>Variable(shape, var_id=i)\<close>: a new object (identity \<open>fresh\<close>, the next unused one) of
  class \<^verbatim>\<open>Variable\<close> with that shape and identifier, no attribute and no child.
\<close>

definition new_Variable :: "nat \<Rightarrow> nat list \<Rightarrow> nat \<Rightarrow> expr" where
  "new_Variable fresh shp var_id = Expr Variable fresh shp var_id [] []"

text \<open>
  \<^verbatim>\<open>variable_canon(self, expr, args)\<close>. The state is the instance and the next unused object
  identity; the result is the pair the method returns and the new state.
\<close>

type_synonym cstate = "DgpCanonMethods \<times> nat"

definition variable_canon ::
  "DgpCanonMethods \<Rightarrow> nat \<Rightarrow> expr \<Rightarrow> expr list \<Rightarrow> (expr \<times> new_constraint list) \<times> cstate" where
  "variable_canon self fresh e as =
    (case map_of (priv_variables self) (var_key e) of
       Some v \<Rightarrow> ((v, []), (self, fresh))
     | None \<Rightarrow>
         (let log_variable = new_Variable fresh (shape e) (expr_id e)
          in ((log_variable, []),
              (self\<lparr>priv_variables := AList.update (var_key e) log_variable (priv_variables self)\<rparr>,
               Suc fresh))))"

section \<open>The forward reduction\<close>

text \<open>
  The record the generic engine returns, with the two attributes \<^verbatim>\<open>apply\<close> adds to it
  (\<open>None\<close>: not set). \<open>id_map\<close> lists the identifiers of the variables of the original
  problem.
\<close>

record inverse_data =
  id_map :: "nat list"
  priv_problem :: "problem option"
  priv_canon_methods :: "DgpCanonMethods option"

text \<open>
  The generic engine \<^verbatim>\<open>Canonicalization(canon_methods).apply(problem)\<close> is a parameter of
  \<^verbatim>\<open>apply\<close>: given the rule table, the next unused object identity, the problem and the
  store it reads, it raises or returns the rewritten problem, its inverse record and the
  table as it left it.
\<close>

type_synonym engine =
  "DgpCanonMethods \<Rightarrow> nat \<Rightarrow> problem \<Rightarrow> store
    \<Rightarrow> error + ((canon_problem \<times> inverse_data) \<times> cstate)"

definition accepts :: "(problem \<Rightarrow> store \<Rightarrow> bool) \<Rightarrow> problem \<Rightarrow> store \<Rightarrow> bool" where
  "accepts is_dgp problem h = is_dgp problem h"

text \<open>The first loop of \<^verbatim>\<open>apply\<close>: save \<^verbatim>\<open>args\<close> in \<^verbatim>\<open>_old_args\<close>, install \<^verbatim>\<open>[_lhs, _rhs]\<close>.\<close>

fun restructure :: "nat list \<Rightarrow> store \<Rightarrow> store" where
  "restructure [] h = h"
| "restructure (c # cs) h =
    (let constraint = h c;
         constraint = constraint\<lparr>priv_old_args := Some (args constraint)\<rparr>;
         constraint = constraint\<lparr>args := [priv_lhs constraint, priv_rhs constraint]\<rparr>
     in restructure cs (h(c := constraint)))"

text \<open>
  The second loop: \<^verbatim>\<open>constraint.args = constraint._old_args\<close> raises \<^verbatim>\<open>AttributeError\<close> on an
  object without the attribute, and the store stays as the loop left it.
\<close>

fun restore :: "nat list \<Rightarrow> store \<Rightarrow> (error + unit) \<times> store" where
  "restore [] h = (Inr (), h)"
| "restore (c # cs) h =
    (case priv_old_args (h c) of
       None \<Rightarrow> (Inl (AttributeError ''_old_args''), h)
     | Some old_args \<Rightarrow>
         restore cs (h(c := (h c)\<lparr>args := old_args, priv_old_args := None\<rparr>)))"

definition Gp2Dcp_apply ::
  "(problem \<Rightarrow> store \<Rightarrow> bool) \<Rightarrow> engine \<Rightarrow> nat \<Rightarrow> problem \<Rightarrow> store
    \<Rightarrow> (error + (canon_problem \<times> inverse_data)) \<times> store" where
  "Gp2Dcp_apply is_dgp engine fresh problem h =
    (if \<not> accepts is_dgp problem h then (Inl DisciplineViolation, h)
     else
       (let canon_methods = DgpCanonMethods_init [];
            h1 = restructure (priv_constraints problem) h
        in (case engine canon_methods fresh problem h1 of
              Inl e \<Rightarrow> (Inl e, h1)
            | Inr ((equiv_problem, inverse_data), (canon_methods, fresh')) \<Rightarrow>
                (case restore (priv_constraints problem) h1 of
                   (Inl e, h2) \<Rightarrow> (Inl e, h2)
                 | (Inr u, h2) \<Rightarrow>
                     (Inr (equiv_problem,
                           inverse_data\<lparr>priv_problem := Some problem,
                                        priv_canon_methods := Some canon_methods\<rparr>),
                      h2)))))"

section \<open>The generic rewrite engine\<close>

text \<open>
  The bodies of the rules of the table (\<^verbatim>\<open>add_canon\<close>, ...) are in other modules. The spec
  describes a rule as a pure function from the original node and its rewritten children to
  the rewritten node and the extra constraints; the rules are a parameter of that type.
\<close>

type_synonym rules = "canon_method \<Rightarrow> expr \<Rightarrow> expr list \<Rightarrow> expr \<times> new_constraint list"

text \<open>
  Calling what \<^verbatim>\<open>canon_methods[type(expr)]\<close> returned: the bound method runs
  \<^verbatim>\<open>variable_canon\<close> on the instance, \<^verbatim>\<open>None\<close> is not callable, any other value is a rule.
\<close>

definition call_method ::
  "rules \<Rightarrow> canon_method \<Rightarrow> expr \<Rightarrow> expr list \<Rightarrow> cstate
    \<Rightarrow> error + ((expr \<times> new_constraint list) \<times> cstate)" where
  "call_method rules m e as st =
    (if m = bound_variable_canon then Inr (variable_canon (fst st) (snd st) e as)
     else if m = PyNone then Inl (TypeError ''NoneType object is not callable'')
     else Inr (rules m e as, st))"

text \<open>
  Modelled from the spec: the generic rewrite engine (class \<^verbatim>\<open>Canonicalization\<close> is not
  among the source files). It walks an expression graph bottom-up applying the supplied
  rule table: the children first, from left to right, then the rule looked up for the
  node's kind, applied to the node and its rewritten children; the extra constraints are
  collected in that order. A failed lookup fails the whole walk.
\<close>

definition canonicalize_expr ::
  "rules \<Rightarrow> expr \<Rightarrow> expr list \<Rightarrow> cstate \<Rightarrow> error + ((expr \<times> new_constraint list) \<times> cstate)" where
  "canonicalize_expr rules e as st =
    (case DgpCanonMethods_getitem (fst st) (expr_type e) of
       Inl err \<Rightarrow> Inl err
     | Inr m \<Rightarrow> call_method rules m e as st)"

fun canonicalize_tree ::
  "rules \<Rightarrow> expr \<Rightarrow> cstate \<Rightarrow> error + ((expr \<times> new_constraint list) \<times> cstate)"
and canonicalize_args ::
  "rules \<Rightarrow> expr list \<Rightarrow> cstate \<Rightarrow> error + ((expr list \<times> new_constraint list) \<times> cstate)"
where
  "canonicalize_tree rules (Expr t ob sh i attrs children) st =
    (case canonicalize_args rules children st of
       Inl err \<Rightarrow> Inl err
     | Inr ((canon_args, constrs), st1) \<Rightarrow>
         (case canonicalize_expr rules (Expr t ob sh i attrs children) canon_args st1 of
            Inl err \<Rightarrow> Inl err
          | Inr ((canon_expr, c), st2) \<Rightarrow> Inr ((canon_expr, constrs @ c), st2)))"
| "canonicalize_args rules [] st = Inr (([], []), st)"
| "canonicalize_args rules (x # xs) st =
    (case canonicalize_tree rules x st of
       Inl err \<Rightarrow> Inl err
     | Inr ((canon_arg, c), st1) \<Rightarrow>
         (case canonicalize_args rules xs st1 of
            Inl err \<Rightarrow> Inl err
          | Inr ((canon_args, constrs), st2) \<Rightarrow> Inr ((canon_arg # canon_args, c @ constrs), st2)))"

text \<open>
  Modelled from the spec (same missing class): each constraint of the problem is rewritten
  through its argument list as the store shows it; the constraints a rule adds come before
  the rewritten constraint, a new object with the rewritten arguments.
\<close>

fun canonicalize_constraints ::
  "rules \<Rightarrow> store \<Rightarrow> nat list \<Rightarrow> cstate \<Rightarrow> error + (new_constraint list \<times> cstate)" where
  "canonicalize_constraints rules h [] st = Inr ([], st)"
| "canonicalize_constraints rules h (c # cs) st =
    (case canonicalize_args rules (args (h c)) st of
       Inl err \<Rightarrow> Inl err
     | Inr ((canon_args, aux_constr), st1) \<Rightarrow>
         (case canonicalize_constraints rules h cs st1 of
            Inl err \<Rightarrow> Inl err
          | Inr (rest, st2) \<Rightarrow>
              Inr (aux_constr @ New_constraint (relop (h c)) canon_args # rest, st2)))"

text \<open>The identifiers of the variable nodes of an expression, from left to right.\<close>

fun variables_of :: "expr \<Rightarrow> nat list" where
  "variables_of (Expr t ob sh i attrs children) =
    (if t = Variable then [i] else []) @ concat (map variables_of children)"

definition problem_variables :: "problem \<Rightarrow> store \<Rightarrow> nat list" where
  "problem_variables problem h =
    remdups (variables_of (objective problem)
             @ concat (map (\<lambda>c. concat (map variables_of (args (h c)))) (priv_constraints problem)))"

text \<open>
  Modelled from the spec (same missing class): \<^verbatim>\<open>Canonicalization(canon_methods).apply\<close>
  rewrites the objective, then the constraints in order, and returns the new problem with a
  generic inverse record.
\<close>

definition Canonicalization_apply :: "rules \<Rightarrow> engine" where
  "Canonicalization_apply rules canon_methods fresh problem h =
    (case canonicalize_tree rules (objective problem) (canon_methods, fresh) of
       Inl err \<Rightarrow> Inl err
     | Inr ((canon_obj, constrs), st1) \<Rightarrow>
         (case canonicalize_constraints rules h (priv_constraints problem) st1 of
            Inl err \<Rightarrow> Inl err
          | Inr (canon_constrs, st2) \<Rightarrow>
              Inr ((\<lparr>canon_objective = canon_obj,
                     canon_constraints = constrs @ canon_constrs\<rparr>,
                    \<lparr>id_map = problem_variables problem h,
                     priv_problem = None, priv_canon_methods = None\<rparr>),
                   st2)))"

section \<open>The inverse reduction\<close>

text \<open>
  A solver's solution: status, optimal value, primal values and dual values by identifier
  (dictionaries in insertion order). Values are of an arbitrary type \<open>'v\<close>; \<^verbatim>\<open>np.exp\<close> is
  a parameter \<open>np_exp\<close> on it.
\<close>

record 'v solution =
  status :: string
  opt_val :: 'v
  primal_vars :: "(nat \<times> 'v) list"
  dual_vars :: "(nat \<times> 'v) list"

text \<open>
  The two lists of statuses of \<^verbatim>\<open>cvxpy.settings\<close>, which is not among the source files,
  are parameters.
\<close>

record settings =
  SOLUTION_PRESENT :: "string list"
  INF_OR_UNB :: "string list"

text \<open>
  The solution state of the original problem object: the values saved in its variables and
  the solution it caches (\<open>None\<close>: none).
\<close>

record 'v problem_state =
  var_values :: "(nat \<times> 'v) list"
  problem_solution :: "'v solution option"

text \<open>
  Modelled from the spec: the generic inverse step \<^verbatim>\<open>Canonicalization.invert\<close> (not among
  the source files) maps the solver's values back onto the variables that correspond to
  original variables; status, optimal value and dual values pass through.
\<close>

definition Canonicalization_invert :: "'v solution \<Rightarrow> inverse_data \<Rightarrow> 'v solution" where
  "Canonicalization_invert solution inverse_data =
    solution\<lparr>primal_vars :=
      filter (\<lambda>(vid, value). vid \<in> set (id_map inverse_data)) (primal_vars solution)\<rparr>"

text \<open>
  Modelled from the spec: the mutation primitives of the problem object (class \<^verbatim>\<open>Problem\<close>
  is not among the source files). \<^verbatim>\<open>unpack\<close> installs the primal values of the solution
  into the problem's variables and the problem keeps the solution; \<^verbatim>\<open>_clear_solution\<close>
  clears this transient solution state.
\<close>

definition unpack :: "'v solution \<Rightarrow> 'v problem_state \<Rightarrow> 'v problem_state" where
  "unpack solution ps = ps\<lparr>var_values := primal_vars solution, problem_solution := Some solution\<rparr>"

definition clear_solution :: "'v problem_state \<Rightarrow> 'v problem_state" where
  "clear_solution ps = ps\<lparr>var_values := [], problem_solution := None\<rparr>"

text \<open>
  Lines 89-90 of \<^verbatim>\<open>invert\<close>: every primal value is replaced by its exponential, under
  the same key.
\<close>

definition exp_primal_vars :: "('v \<Rightarrow> 'v) \<Rightarrow> 'v solution \<Rightarrow> 'v solution" where
  "exp_primal_vars np_exp solution =
    solution\<lparr>primal_vars := map (\<lambda>(vid, value). (vid, np_exp value)) (primal_vars solution)\<rparr>"

text \<open>
  \<^verbatim>\<open>invert(self, solution, inverse_data)\<close>. \<open>value_of\<close> evaluates an expression of the
  original problem on the values saved in its variables (\<^verbatim>\<open>objective.value\<close>); \<open>ps\<close> is
  the solution state of the object \<^verbatim>\<open>inverse_data._problem\<close>. The cached solution is the
  object \<^verbatim>\<open>solution\<close> names after line 95, so the assignment to \<^verbatim>\<open>opt_val\<close> shows in the
  cache until \<^verbatim>\<open>_clear_solution\<close> drops it.
\<close>

definition Gp2Dcp_invert ::
  "settings \<Rightarrow> ('v \<Rightarrow> 'v) \<Rightarrow> (expr \<Rightarrow> (nat \<times> 'v) list \<Rightarrow> 'v)
    \<Rightarrow> 'v solution \<Rightarrow> inverse_data \<Rightarrow> 'v problem_state
    \<Rightarrow> error + ('v solution \<times> 'v problem_state)" where
  "Gp2Dcp_invert s np_exp value_of solution inverse_data ps =
    (let solution = Canonicalization_invert solution inverse_data;
         solution = exp_primal_vars np_exp solution
     in if status solution \<in> set (SOLUTION_PRESENT s) then
          (case priv_problem inverse_data of
             None \<Rightarrow> Inl (AttributeError ''_problem'')
           | Some problem \<Rightarrow>
               (let ps1 = unpack solution ps
                in (case problem_solution ps1 of
                      None \<Rightarrow> Inl (AttributeError ''opt_val'')
                    | Some solution \<Rightarrow>
                        (let solution = solution\<lparr>opt_val :=
                                          value_of (objective problem) (var_values ps1)\<rparr>;
                             ps2 = ps1\<lparr>problem_solution := Some solution\<rparr>
                         in Inr (solution, clear_solution ps2)))))
        else if status solution \<in> set (INF_OR_UNB s) then
          Inr (solution\<lparr>opt_val := np_exp (opt_val solution)\<rparr>, ps)
        else Inr (solution, ps))"

section \<open>Auxiliary notions for the statements\<close>

text \<open>
  The classes of the nodes of an expression, in the order the engine meets them (children
  before their parent), and those among them that the table does not list.
\<close>

fun expr_types :: "expr \<Rightarrow> atom_type list" where
  "expr_types (Expr t ob sh i attrs children) = concat (map expr_types children) @ [t]"

definition unsupported :: "atom_type list \<Rightarrow> atom_type list" where
  "unsupported ts = filter (\<lambda>k. k \<notin> set (map fst CANON_METHODS)) ts"

text \<open>The classes of the nodes in the argument lists of the listed constraints.\<close>

definition store_types :: "store \<Rightarrow> nat list \<Rightarrow> atom_type list" where
  "store_types h cs = concat (map (\<lambda>c. concat (map expr_types (args (h c)))) cs)"


text \<open>One step of the first loop of \<^verbatim>\<open>apply\<close> on a constraint object.\<close>

definition restructured :: "constraint \<Rightarrow> constraint" where
  "restructured c = c\<lparr>priv_old_args := Some (args c), args := [priv_lhs c, priv_rhs c]\<rparr>"

text \<open>
  The spec's identity sharing, to compare the engine with: a rewrite without state, in
  which a fixed table from identifiers to log-space variables replaces every occurrence
  of a variable, and every other node is rewritten by the rule of the static table.
\<close>

fun substitute_tree :: "rules \<Rightarrow> (nat \<times> expr) list \<Rightarrow> expr \<Rightarrow> expr \<times> new_constraint list"
and substitute_args ::
  "rules \<Rightarrow> (nat \<times> expr) list \<Rightarrow> expr list \<Rightarrow> expr list \<times> new_constraint list"
where
  "substitute_tree rules table (Expr t ob sh i attrs children) =
    (let e = Expr t ob sh i attrs children;
         (canon_args, constrs) = substitute_args rules table children
     in if t = Variable then
          (case map_of table (var_key e) of
             Some log_variable \<Rightarrow> (log_variable, constrs)
           | None \<Rightarrow> (e, constrs))
        else
          (case map_of CANON_METHODS t of
             Some m \<Rightarrow> (fst (rules m e canon_args), constrs @ snd (rules m e canon_args))
           | None \<Rightarrow> (e, constrs)))"
| "substitute_args rules table [] = ([], [])"
| "substitute_args rules table (x # xs) =
    (let (canon_arg, c) = substitute_tree rules table x;
         (canon_args, constrs) = substitute_args rules table xs
     in (canon_arg # canon_args, c @ constrs))"

fun substitute_constraints ::
  "rules \<Rightarrow> (nat \<times> expr) list \<Rightarrow> store \<Rightarrow> nat list \<Rightarrow> new_constraint list" where
  "substitute_constraints rules table h [] = []"
| "substitute_constraints rules table h (c # cs) =
    (let (canon_args, aux_constr) = substitute_args rules table (args (h c))
     in aux_constr @ New_constraint (relop (h c)) canon_args
          # substitute_constraints rules table h cs)"

text \<open>A table agrees with every entry of the cache of a state.\<close>

definition extends :: "(nat \<times> expr) list \<Rightarrow> cstate \<Rightarrow> bool" where
  "extends table st =
    (\<forall>k v. map_of (priv_variables (fst st)) k = Some v \<longrightarrow> map_of table k = Some v)"

section \<open>Concrete inputs\<close>

text \<open>
  Two positive variables \<open>x\<close> and \<open>y\<close>, the product \<open>x * y * x\<close>, a constant, and
  \<^verbatim>\<open>sum_smallest(x)\<close>, an atom the table does not list. Constraint object 1 is
  \<^verbatim>\<open>sum_smallest(x) <= c\<close>, every other constraint object is \<^verbatim>\<open>x * y * x <= c\<close>; the
  argument list a constraint has by default is its single difference \<^verbatim>\<open>lhs - rhs\<close>.
\<close>

definition example_x :: expr where
  "example_x = Expr Variable 1 [] 1 [''pos''] []"

definition example_y :: expr where
  "example_y = Expr Variable 2 [] 2 [''pos''] []"

definition example_lhs :: expr where
  "example_lhs = Expr multiply 3 [] 3 [] [example_x, example_y, example_x]"

definition example_rhs :: expr where
  "example_rhs = Expr Constant 4 [] 4 [] []"

definition example_sum_smallest :: expr where
  "example_sum_smallest = Expr (Other_atom ''sum_smallest'') 5 [] 5 [] [example_x]"

definition difference :: "nat \<Rightarrow> expr \<Rightarrow> expr \<Rightarrow> expr" where
  "difference n l r =
     Expr AddExpression n [] n []
       [l, Expr (Other_atom ''NegExpression'') (Suc n) [] (Suc n) [] [r]]"

definition example_constraint :: constraint where
  "example_constraint =
     \<lparr>relop = ''<='', args = [difference 6 example_lhs example_rhs],
      priv_lhs = example_lhs, priv_rhs = example_rhs, priv_old_args = None\<rparr>"

definition example_unsupported_constraint :: constraint where
  "example_unsupported_constraint =
     \<lparr>relop = ''<='', args = [difference 8 example_sum_smallest example_rhs],
      priv_lhs = example_sum_smallest, priv_rhs = example_rhs, priv_old_args = None\<rparr>"

definition example_store :: store where
  "example_store = (\<lambda>r. if r = 1 then example_unsupported_constraint else example_constraint)"

definition example_problem :: "nat list \<Rightarrow> problem" where
  "example_problem cs = \<lparr>objective = example_lhs, priv_constraints = cs\<rparr>"

text \<open>A rule that copies the node over its rewritten children and adds no constraint.\<close>

definition example_rules :: rules where
  "example_rules m e as =
     (Expr (expr_type e) (expr_obj e) (shape e) (expr_id e) (attributes e) as, [])"

definition example_settings :: settings where
  "example_settings =
     \<lparr>SOLUTION_PRESENT = [''optimal'', ''optimal_inaccurate''],
      INF_OR_UNB = [''infeasible'', ''unbounded'']\<rparr>"

definition example_inverse_data :: inverse_data where
  "example_inverse_data =
     \<lparr>id_map = [2, 1], priv_problem = Some (example_problem [0]), priv_canon_methods = None\<rparr>"

definition example_solution :: "string \<Rightarrow> real solution" where
  "example_solution st =
     \<lparr>status = st, opt_val = 5, primal_vars = [(1, 0), (2, 3), (50, 4)], dual_vars = []\<rparr>"

definition example_value_of :: "expr \<Rightarrow> (nat \<times> real) list \<Rightarrow> real" where
  "example_value_of e vals = sum_list (map snd vals)"

definition example_state :: "real problem_state" where
  "example_state = \<lparr>var_values = [], problem_solution = None\<rparr>"

text \<open>
  What the reduction makes of the problem \<^verbatim>\<open>minimize x * y * x subject to x * y * x <= c\<close>
  when the next unused object identity is 100.
\<close>

definition example_log_x :: expr where
  "example_log_x = Expr Variable 100 [] 1 [] []"

definition example_log_y :: expr where
  "example_log_y = Expr Variable 101 [] 2 [] []"

definition example_canon_methods :: DgpCanonMethods where
  "example_canon_methods =
     \<lparr>dict_items = [], priv_variables = [(1, example_log_x), (2, example_log_y)]\<rparr>"

definition example_canon_methods_yx :: DgpCanonMethods where
  "example_canon_methods_yx =
     \<lparr>dict_items = [], priv_variables = [(2, example_log_y), (1, example_log_x)]\<rparr>"

definition example_equiv_problem :: canon_problem where
  "example_equiv_problem =
     \<lparr>canon_objective = Expr multiply 3 [] 3 [] [example_log_x, example_log_y, example_log_x],
      canon_constraints =
        [New_constraint ''<=''
           [Expr multiply 3 [] 3 [] [example_log_x, example_log_y, example_log_x],
            example_rhs]]\<rparr>"

lemmas example_defs =
  example_x_def example_y_def example_lhs_def example_rhs_def example_sum_smallest_def
  difference_def example_constraint_def example_unsupported_constraint_def example_store_def
  example_problem_def example_rules_def example_settings_def example_inverse_data_def
  example_solution_def example_value_of_def example_state_def
  example_log_x_def example_log_y_def example_canon_methods_def example_equiv_problem_def
  example_canon_methods_yx_def

lemmas eval_defs =
  Gp2Dcp_apply_def accepts_def Canonicalization_apply_def canonicalize_expr_def
  call_method_def variable_canon_def new_Variable_def var_key_def
  DgpCanonMethods_getitem_def DgpCanonMethods_init_def CANON_METHODS_def
  problem_variables_def example_defs Let_def

section \<open>The rewrite table and the variable rule\<close>

lemma update_absent: "map_of al k = None \<Longrightarrow> AList.update k v al = al @ [(k, v)]"
  by (induction al) (auto split: if_splits)

lemma CANON_METHODS_None: "map_of CANON_METHODS key = Some PyNone \<Longrightarrow> key = Variable"
  by (simp add: CANON_METHODS_def split: if_splits)

lemma CANON_METHODS_not_bound: "map_of CANON_METHODS key \<noteq> Some bound_variable_canon"
  by (simp add: CANON_METHODS_def)

lemma Variable_in_table: "Variable \<in> set (map fst CANON_METHODS)"
  by (simp add: CANON_METHODS_def)

lemma getitem_not_None: "DgpCanonMethods_getitem self key \<noteq> Inr PyNone"
  by (auto simp: DgpCanonMethods_getitem_def split: option.splits dest: CANON_METHODS_None)

lemma getitem_absent:
  "key \<notin> set (map fst CANON_METHODS) \<Longrightarrow> DgpCanonMethods_getitem self key = Inl (KeyError key)"
proof -
  assume a: "key \<notin> set (map fst CANON_METHODS)"
  then have "key \<noteq> Variable" using Variable_in_table by auto
  moreover from a have "map_of CANON_METHODS key = None"
    by (simp add: map_of_eq_None_iff)
  ultimately show ?thesis by (simp add: DgpCanonMethods_getitem_def)
qed

lemma getitem_present:
  "key \<in> set (map fst CANON_METHODS) \<Longrightarrow>
     \<exists>m. DgpCanonMethods_getitem self key = Inr m \<and> m \<noteq> PyNone"
proof -
  assume a: "key \<in> set (map fst CANON_METHODS)"
  then obtain m where m: "map_of CANON_METHODS key = Some m"
    by (metis map_of_eq_None_iff not_None_eq set_map)
  show ?thesis
  proof (cases "key = Variable")
    case True
    then show ?thesis by (simp add: DgpCanonMethods_getitem_def)
  next
    case False
    with m CANON_METHODS_None have "m \<noteq> PyNone" by blast
    with False m show ?thesis by (simp add: DgpCanonMethods_getitem_def)
  qed
qed

lemma variable_canon_again:
  assumes "variable_canon self fresh e as = ((v, cs), (self', fresh'))"
    and "var_key e' = var_key e"
  shows "variable_canon self' fresh' e' as' = ((v, []), (self', fresh'))"
  using assms
  by (auto simp: variable_canon_def Let_def AList.update_conv' split: option.splits)

lemma variable_canon_mono:
  assumes "variable_canon self fresh e as = (r, st')"
    and "map_of (priv_variables self) k = Some v"
  shows "map_of (priv_variables (fst st')) k = Some v"
  using assms
  by (auto simp: variable_canon_def Let_def AList.update_conv' split: option.splits)

lemma variable_canon_result:
  assumes "variable_canon self fresh e as = (r, st')"
  shows "\<exists>v. r = (v, []) \<and> map_of (priv_variables (fst st')) (var_key e) = Some v"
  using assms
  by (auto simp: variable_canon_def Let_def AList.update_conv' split: option.splits)

text \<open>
  C8: when the identifier of the original variable is not a key of the cache, the variable
  rule mints a new variable (a new object, of class \<^verbatim>\<open>Variable\<close>) with the identifier and
  the shape of the original and no attribute, so no positivity; it records it in the cache
  under that identifier and returns it with an empty list of extra constraints.
\<close>

theorem variable_canon_mints_unseen:
  assumes "var_key e \<notin> set (map fst (priv_variables self))"
  shows "variable_canon self fresh e as =
           ((new_Variable fresh (shape e) (expr_id e), []),
            (self\<lparr>priv_variables :=
                    priv_variables self @ [(var_key e, new_Variable fresh (shape e) (expr_id e))]\<rparr>,
             Suc fresh))
         \<and> expr_type (new_Variable fresh (shape e) (expr_id e)) = Variable
         \<and> expr_obj (new_Variable fresh (shape e) (expr_id e)) = fresh
         \<and> expr_id (new_Variable fresh (shape e) (expr_id e)) = expr_id e
         \<and> shape (new_Variable fresh (shape e) (expr_id e)) = shape e
         \<and> attributes (new_Variable fresh (shape e) (expr_id e)) = []"
proof -
  from assms have n: "map_of (priv_variables self) (var_key e) = None"
    by (simp add: map_of_eq_None_iff)
  show ?thesis
    by (simp add: variable_canon_def n update_absent new_Variable_def Let_def)
qed

theorem variable_canon_mints_unseen_witness:
  "var_key example_x \<notin> set (map fst (priv_variables (DgpCanonMethods_init [])))
   \<and> variable_canon (DgpCanonMethods_init []) 100 example_x [] =
       ((Expr Variable 100 [] 1 [] [], []),
        (\<lparr>dict_items = [], priv_variables = [(1, Expr Variable 100 [] 1 [] [])]\<rparr>, 101))"
  using variable_canon_mints_unseen [of example_x "DgpCanonMethods_init []" 100 "[]"]
  by (simp add: DgpCanonMethods_init_def new_Variable_def var_key_def example_x_def)

text \<open>
  C9: the static table maps the class \<^verbatim>\<open>Variable\<close> to \<^verbatim>\<open>None\<close>, yet looking \<^verbatim>\<open>Variable\<close> up
  on an instance returns the instance's bound method \<^verbatim>\<open>variable_canon\<close>, and no lookup on
  an instance, for any key, returns \<^verbatim>\<open>None\<close>: a caller that looks rules up through the
  instance never holds a \<^verbatim>\<open>None\<close> rule to invoke.
\<close>

theorem variable_lookup_never_None:
  "map_of CANON_METHODS Variable = Some PyNone
   \<and> DgpCanonMethods_getitem self Variable = Inr bound_variable_canon
   \<and> DgpCanonMethods_getitem self key \<noteq> Inr PyNone"
proof (intro conjI)
  show "map_of CANON_METHODS Variable = Some PyNone" by (simp add: CANON_METHODS_def)
  show "DgpCanonMethods_getitem self Variable = Inr bound_variable_canon"
    by (simp add: DgpCanonMethods_getitem_def)
  show "DgpCanonMethods_getitem self key \<noteq> Inr PyNone" by (rule getitem_not_None)
qed

section \<open>The forward reduction\<close>

text \<open>
  C4: when the discipline check \<^verbatim>\<open>is_dgp\<close> is false (so \<^verbatim>\<open>accepts\<close> is false), \<^verbatim>\<open>apply\<close>
  raises the discipline violation and the store of constraint objects is the one it was
  called with: no argument list has been touched.
\<close>

theorem apply_rejects_before_mutation:
  "\<not> is_dgp problem h \<Longrightarrow>
     \<not> accepts is_dgp problem h \<and>
     Gp2Dcp_apply is_dgp engine fresh problem h = (Inl DisciplineViolation, h)"
  by (simp add: Gp2Dcp_apply_def accepts_def)

theorem apply_rejects_before_mutation_witness:
  "\<not> (\<lambda>p h. False) (example_problem [0]) example_store
   \<and> \<not> accepts (\<lambda>p h. False) (example_problem [0]) example_store
   \<and> Gp2Dcp_apply (\<lambda>p h. False) (Canonicalization_apply example_rules) 100
        (example_problem [0]) example_store
       = (Inl (ValueError ''The supplied problem is not log-log DCP.''), example_store)"
  using apply_rejects_before_mutation
          [of "\<lambda>p h. False" "example_problem [0]" example_store
              "Canonicalization_apply example_rules" 100]
  by (simp add: DisciplineViolation_def)


section \<open>The inverse reduction\<close>

text \<open>
  C3: for a status listed in \<^verbatim>\<open>INF_OR_UNB\<close> (and not in \<^verbatim>\<open>SOLUTION_PRESENT\<close>, which the
  source tests first), \<^verbatim>\<open>invert\<close> returns the solution of the generic inverse step with
  exponentiated primal values and with \<open>np_exp v\<close> as optimal value, \<open>v\<close> the optimal value
  of the solver; the state of the original problem is the one before the call.
\<close>

theorem invert_inf_or_unb:
  assumes "status solution \<in> set (INF_OR_UNB s)"
    and "status solution \<notin> set (SOLUTION_PRESENT s)"
  shows "Gp2Dcp_invert s np_exp value_of solution inverse_data ps =
           Inr ((exp_primal_vars np_exp (Canonicalization_invert solution inverse_data))
                  \<lparr>opt_val := np_exp (opt_val solution)\<rparr>,
                ps)"
  using assms
  by (simp add: Gp2Dcp_invert_def Canonicalization_invert_def exp_primal_vars_def Let_def)

theorem invert_inf_or_unb_witness:
  "status (example_solution ''unbounded'') \<in> set (INF_OR_UNB example_settings)
   \<and> status (example_solution ''unbounded'') \<notin> set (SOLUTION_PRESENT example_settings)
   \<and> Gp2Dcp_invert example_settings exp example_value_of (example_solution ''unbounded'')
        example_inverse_data example_state
       = Inr (\<lparr>status = ''unbounded'', opt_val = exp 5,
               primal_vars = [(1, exp 0), (2, exp 3)], dual_vars = []\<rparr>,
              example_state)"
  using invert_inf_or_unb
          [of "example_solution ''unbounded''" example_settings exp example_value_of
              example_inverse_data example_state]
  by (simp add: example_defs Canonicalization_invert_def exp_primal_vars_def)

text \<open>
  C7: for a status in neither list, \<^verbatim>\<open>invert\<close> returns the solution of the generic inverse
  step with exponentiated primal values and nothing else changed, in particular with the
  optimal value of the solver; the state of the original problem is the one before the
  call.
\<close>

theorem invert_other_status:
  assumes "status solution \<notin> set (SOLUTION_PRESENT s)"
    and "status solution \<notin> set (INF_OR_UNB s)"
  shows "Gp2Dcp_invert s np_exp value_of solution inverse_data ps =
           Inr (exp_primal_vars np_exp (Canonicalization_invert solution inverse_data), ps)
         \<and> opt_val (exp_primal_vars np_exp (Canonicalization_invert solution inverse_data))
             = opt_val solution"
  using assms
  by (simp add: Gp2Dcp_invert_def Canonicalization_invert_def exp_primal_vars_def Let_def)

theorem invert_other_status_witness:
  "status (example_solution ''solver_error'') \<notin> set (SOLUTION_PRESENT example_settings)
   \<and> status (example_solution ''solver_error'') \<notin> set (INF_OR_UNB example_settings)
   \<and> Gp2Dcp_invert example_settings exp example_value_of (example_solution ''solver_error'')
        example_inverse_data example_state
       = Inr (\<lparr>status = ''solver_error'', opt_val = 5,
               primal_vars = [(1, exp 0), (2, exp 3)], dual_vars = []\<rparr>,
              example_state)"
  using invert_other_status
          [of "example_solution ''solver_error''" example_settings exp example_value_of
              example_inverse_data example_state]
  by (simp add: example_defs Canonicalization_invert_def exp_primal_vars_def)

text \<open>
  C5: for a status listed in \<^verbatim>\<open>SOLUTION_PRESENT\<close> and an inverse record that holds the
  original problem, \<^verbatim>\<open>invert\<close> installs the exponentiated primal values into the variables
  of the original problem (the state after \<^verbatim>\<open>unpack\<close>), returns the solution with, as
  optimal value, the value of the objective of the original problem on these values, and
  leaves the original problem with cleared solution state: no cached solution.
\<close>

theorem invert_solution_present:
  assumes "status solution \<in> set (SOLUTION_PRESENT s)"
    and "priv_problem inverse_data = Some problem"
  shows "var_values (unpack (exp_primal_vars np_exp (Canonicalization_invert solution inverse_data)) ps)
           = map (\<lambda>(vid, value). (vid, np_exp value))
               (primal_vars (Canonicalization_invert solution inverse_data))
       \<and> Gp2Dcp_invert s np_exp value_of solution inverse_data ps =
           Inr ((exp_primal_vars np_exp (Canonicalization_invert solution inverse_data))
                  \<lparr>opt_val := value_of (objective problem)
                     (var_values (unpack
                        (exp_primal_vars np_exp (Canonicalization_invert solution inverse_data))
                        ps))\<rparr>,
                ps\<lparr>var_values := [], problem_solution := None\<rparr>)"
  using assms
  by (simp add: Gp2Dcp_invert_def Canonicalization_invert_def exp_primal_vars_def Let_def
        unpack_def clear_solution_def)

theorem invert_solution_present_witness:
  "status (example_solution ''optimal'') \<in> set (SOLUTION_PRESENT example_settings)
   \<and> priv_problem example_inverse_data = Some (example_problem [0])
   \<and> var_values (unpack (exp_primal_vars exp
         (Canonicalization_invert (example_solution ''optimal'') example_inverse_data))
         example_state) = [(1, exp 0), (2, exp 3)]
   \<and> Gp2Dcp_invert example_settings exp example_value_of (example_solution ''optimal'')
        example_inverse_data example_state
       = Inr (\<lparr>status = ''optimal'', opt_val = exp 0 + exp 3,
               primal_vars = [(1, exp 0), (2, exp 3)], dual_vars = []\<rparr>,
              \<lparr>var_values = [], problem_solution = None\<rparr>)"
  using invert_solution_present
          [of "example_solution ''optimal''" example_settings example_inverse_data
              "example_problem [0]" exp example_state example_value_of]
  by (simp add: example_defs Canonicalization_invert_def exp_primal_vars_def unpack_def)

section \<open>The engine fails exactly on a class the table does not list\<close>

lemma unsupported_append [simp]: "unsupported (xs @ ys) = unsupported xs @ unsupported ys"
  by (simp add: unsupported_def)

lemma unsupported_Nil [simp]: "unsupported [] = []"
  by (simp add: unsupported_def)


lemma canonicalize_expr_absent:
  "expr_type e \<notin> set (map fst CANON_METHODS) \<Longrightarrow>
     canonicalize_expr rules e as st = Inl (KeyError (expr_type e))"
  by (simp add: canonicalize_expr_def getitem_absent)

lemma canonicalize_expr_present:
  "expr_type e \<in> set (map fst CANON_METHODS) \<Longrightarrow> \<not> isl (canonicalize_expr rules e as st)"
proof -
  assume "expr_type e \<in> set (map fst CANON_METHODS)"
  then obtain m where "DgpCanonMethods_getitem (fst st) (expr_type e) = Inr m" "m \<noteq> PyNone"
    using getitem_present by blast
  then show ?thesis
    by (simp add: canonicalize_expr_def call_method_def)
qed

lemma canonicalize_supported:
  "unsupported (expr_types e) = [] \<Longrightarrow> \<not> isl (canonicalize_tree rules e st)"
  "unsupported (concat (map expr_types es)) = [] \<Longrightarrow> \<not> isl (canonicalize_args rules es st)"
proof (induction rules e st and rules es st rule: canonicalize_tree_canonicalize_args.induct)
  case (1 rules t ob sh i attrs children st)
  from "1.prems" have c: "unsupported (concat (map expr_types children)) = []"
    and t: "t \<in> set (map fst CANON_METHODS)"
    by (auto simp: unsupported_def split: if_splits)
  from "1.IH" [OF c] have a: "\<not> isl (canonicalize_args rules children st)" .
  have e: "canonicalize_expr rules (Expr t ob sh i attrs children) as st1 \<noteq> Inl err"
    for as st1 err
    using t canonicalize_expr_present [of "Expr t ob sh i attrs children" rules as st1] by auto
  show ?case using a e
    by (auto split: sum.splits prod.splits)
next
  case (2 rules st)
  show ?case by simp
next
  case (3 rules x xs st)
  from "3.prems" have x: "unsupported (expr_types x) = []"
    and xs: "unsupported (concat (map expr_types xs)) = []"
    by simp_all
  from "3.IH"(1) [OF x] obtain canon_arg c st1
    where a: "canonicalize_tree rules x st = Inr ((canon_arg, c), st1)"
    by (cases "canonicalize_tree rules x st") auto
  from "3.IH"(2) [OF a refl refl xs] have "\<not> isl (canonicalize_args rules xs st1)" .
  with a show ?case
    by (auto split: sum.splits prod.splits)
qed

lemma canonicalize_unsupported:
  "unsupported (expr_types e) \<noteq> [] \<Longrightarrow>
     canonicalize_tree rules e st = Inl (KeyError (hd (unsupported (expr_types e))))"
  "unsupported (concat (map expr_types es)) \<noteq> [] \<Longrightarrow>
     canonicalize_args rules es st
       = Inl (KeyError (hd (unsupported (concat (map expr_types es)))))"
proof (induction rules e st and rules es st rule: canonicalize_tree_canonicalize_args.induct)
  case (1 rules t ob sh i attrs children st)
  show ?case
  proof (cases "unsupported (concat (map expr_types children)) = []")
    case True
    with "1.prems" have t: "t \<notin> set (map fst CANON_METHODS)"
      by (auto simp: unsupported_def split: if_splits)
    from True have a: "\<not> isl (canonicalize_args rules children st)"
      by (rule canonicalize_supported)
    have e: "canonicalize_expr rules (Expr t ob sh i attrs children) as st1 = Inl (KeyError t)"
      for as st1
      using t canonicalize_expr_absent [of "Expr t ob sh i attrs children"] by simp
    have h: "hd (unsupported (expr_types (Expr t ob sh i attrs children))) = t"
      using True t by (simp add: unsupported_def)
    show ?thesis using a e h
      by (auto split: sum.splits prod.splits)
  next
    case False
    from "1.IH" [OF False] False show ?thesis by simp
  qed
next
  case (2 rules st)
  then show ?case by simp
next
  case (3 rules x xs st)
  show ?case
  proof (cases "unsupported (expr_types x) = []")
    case True
    with "3.prems" have xs: "unsupported (concat (map expr_types xs)) \<noteq> []" by simp
    from True obtain canon_arg c st1
      where a: "canonicalize_tree rules x st = Inr ((canon_arg, c), st1)"
      using canonicalize_supported(1) [of x rules st]
      by (cases "canonicalize_tree rules x st") auto
    from "3.IH"(2) [OF a refl refl xs] a True show ?thesis
      by simp
  next
    case False
    from "3.IH"(1) [OF False] False show ?thesis by simp
  qed
qed

lemma canonicalize_constraints_supported:
  "unsupported (store_types h cs) = [] \<Longrightarrow> \<not> isl (canonicalize_constraints rules h cs st)"
proof (induction cs arbitrary: st)
  case Nil
  then show ?case by simp
next
  case (Cons c cs)
  from Cons.prems have a: "unsupported (concat (map expr_types (args (h c)))) = []"
    and r: "unsupported (store_types h cs) = []"
    by (simp_all add: store_types_def)
  from a obtain res st1 where c: "canonicalize_args rules (args (h c)) st = Inr (res, st1)"
    using canonicalize_supported(2) [of "args (h c)" rules st]
    by (cases "canonicalize_args rules (args (h c)) st") auto
  from Cons.IH [OF r, of st1] c show ?case
    by (auto split: sum.splits prod.splits)
qed

lemma canonicalize_constraints_unsupported:
  "unsupported (store_types h cs) \<noteq> [] \<Longrightarrow>
     canonicalize_constraints rules h cs st = Inl (KeyError (hd (unsupported (store_types h cs))))"
proof (induction cs arbitrary: st)
  case Nil
  then show ?case by (simp add: store_types_def)
next
  case (Cons c cs)
  show ?case
  proof (cases "unsupported (concat (map expr_types (args (h c)))) = []")
    case True
    with Cons.prems have r: "unsupported (store_types h cs) \<noteq> []"
      by (simp add: store_types_def)
    from True obtain res st1 where c: "canonicalize_args rules (args (h c)) st = Inr (res, st1)"
      using canonicalize_supported(2) [of "args (h c)" rules st]
      by (cases "canonicalize_args rules (args (h c)) st") auto
    from Cons.IH [OF r, of st1] c True show ?thesis
      by (auto simp: store_types_def split: prod.splits)
  next
    case False
    from canonicalize_unsupported(2) [OF False, of rules st] False show ?thesis
      by (simp add: store_types_def)
  qed
qed

lemma Canonicalization_apply_supported:
  "unsupported (expr_types (objective problem) @ store_types h (priv_constraints problem)) = []
   \<Longrightarrow> \<not> isl (Canonicalization_apply rules canon_methods fresh problem h)"
proof -
  assume "unsupported (expr_types (objective problem)
            @ store_types h (priv_constraints problem)) = []"
  then have a: "unsupported (expr_types (objective problem)) = []"
    and b: "unsupported (store_types h (priv_constraints problem)) = []" by simp_all
  from a obtain res st1
    where c: "canonicalize_tree rules (objective problem) (canon_methods, fresh) = Inr (res, st1)"
    using canonicalize_supported(1) [of "objective problem" rules "(canon_methods, fresh)"]
    by (cases "canonicalize_tree rules (objective problem) (canon_methods, fresh)") auto
  from canonicalize_constraints_supported [OF b, of rules st1] c show ?thesis
    by (auto simp: Canonicalization_apply_def split: sum.splits prod.splits)
qed

lemma Canonicalization_apply_unsupported:
  "unsupported (expr_types (objective problem) @ store_types h (priv_constraints problem)) \<noteq> []
   \<Longrightarrow> Canonicalization_apply rules canon_methods fresh problem h
       = Inl (KeyError (hd (unsupported
           (expr_types (objective problem) @ store_types h (priv_constraints problem)))))"
proof (cases "unsupported (expr_types (objective problem)) = []")
  case True
  assume "unsupported (expr_types (objective problem)
            @ store_types h (priv_constraints problem)) \<noteq> []"
  with True have b: "unsupported (store_types h (priv_constraints problem)) \<noteq> []" by simp
  from True obtain res st1
    where c: "canonicalize_tree rules (objective problem) (canon_methods, fresh) = Inr (res, st1)"
    using canonicalize_supported(1) [of "objective problem" rules "(canon_methods, fresh)"]
    by (cases "canonicalize_tree rules (objective problem) (canon_methods, fresh)") auto
  from canonicalize_constraints_unsupported [OF b, of rules st1] c True show ?thesis
    by (auto simp: Canonicalization_apply_def split: sum.splits prod.splits)
next
  case False
  from canonicalize_unsupported(1) [OF False, of rules "(canon_methods, fresh)"] False
  show ?thesis
    by (simp add: Canonicalization_apply_def)
qed

text \<open>The engine never calls \<^verbatim>\<open>None\<close>: its only failure is a failed lookup.\<close>

lemma canonicalize_tree_no_TypeError:
  "canonicalize_tree rules e st \<noteq> Inl (TypeError msg)"
  using canonicalize_supported(1) [of e rules st] canonicalize_unsupported(1) [of e rules st]
  by (cases "unsupported (expr_types e) = []") auto

lemma Canonicalization_apply_no_TypeError:
  "Canonicalization_apply rules cm fresh problem h \<noteq> Inl (TypeError msg)"
  using Canonicalization_apply_supported [of problem h rules cm fresh]
    Canonicalization_apply_unsupported [of problem h rules cm fresh]
  by (cases "unsupported (expr_types (objective problem)
               @ store_types h (priv_constraints problem)) = []")
     auto

section \<open>Restructuring and restoring the constraints\<close>

lemma restructure_Cons: "restructure (c # cs) h = restructure cs (h(c := restructured (h c)))"
  by (simp add: Let_def restructured_def)


lemma restructure_lhs_rhs:
  "priv_lhs (restructure cs h c) = priv_lhs (h c)
   \<and> priv_rhs (restructure cs h c) = priv_rhs (h c)
   \<and> relop (restructure cs h c) = relop (h c)"
  by (induction cs arbitrary: h) (auto simp: Let_def)




lemma restructure_upd:
  "c \<notin> set cs \<Longrightarrow> restructure cs (h(c := x)) = (restructure cs h)(c := x)"
proof (induction cs arbitrary: h)
  case Nil
  then show ?case by simp
next
  case (Cons a cs)
  then have ac: "a \<noteq> c" and c: "c \<notin> set cs" by auto
  have "restructure (a # cs) (h(c := x)) = restructure cs ((h(c := x))(a := restructured (h a)))"
    using ac by (simp add: restructure_Cons del: restructure.simps)
  also have "(h(c := x))(a := restructured (h a)) = (h(a := restructured (h a)))(c := x)"
    using ac by (auto simp: fun_eq_iff)
  also have "restructure cs \<dots> = (restructure cs (h(a := restructured (h a))))(c := x)"
    by (rule Cons.IH [OF c])
  finally show ?case by (simp only: restructure_Cons)
qed

text \<open>
  On constraint objects that are pairwise distinct, the second loop undoes the first:
  every listed object has its argument list back and no attribute \<^verbatim>\<open>_old_args\<close>.
\<close>

lemma restore_restructure:
  "distinct cs \<Longrightarrow>
     restore cs (restructure cs h)
       = (Inr (), (\<lambda>c. if c \<in> set cs then (h c)\<lparr>priv_old_args := None\<rparr> else h c))"
proof (induction cs arbitrary: h)
  case Nil
  then show ?case by simp
next
  case (Cons a cs)
  then have a: "a \<notin> set cs" and d: "distinct cs" by auto
  let ?h = "h(a := (h a)\<lparr>priv_old_args := None\<rparr>)"
  have 1: "restructure (a # cs) h = (restructure cs h)(a := restructured (h a))"
    using a by (simp add: restructure_Cons restructure_upd del: restructure.simps)
  have 2: "restore (a # cs) ((restructure cs h)(a := restructured (h a)))
             = restore cs ((restructure cs h)(a := (h a)\<lparr>priv_old_args := None\<rparr>))"
    by (simp add: restructured_def)
  have 3: "(restructure cs h)(a := (h a)\<lparr>priv_old_args := None\<rparr>) = restructure cs ?h"
    using a by (simp add: restructure_upd)
  have 4: "(\<lambda>c. if c \<in> set cs then (?h c)\<lparr>priv_old_args := None\<rparr> else ?h c)
         = (\<lambda>c. if c \<in> set (a # cs) then (h c)\<lparr>priv_old_args := None\<rparr> else h c)"
    using a by (auto simp: fun_eq_iff)
  show ?case
    unfolding 1 2 3 Cons.IH [OF d, of ?h] 4 ..
qed

lemma restore_error: "restore cs h = (Inl err, h') \<Longrightarrow> err = AttributeError ''_old_args''"
  by (induction cs arbitrary: h) (auto split: option.splits)

text \<open>
  What \<^verbatim>\<open>apply\<close> does to the store, for any engine: when the engine returns and the
  constraint objects are pairwise distinct, the store is restored; when the engine raises,
  the error goes to the caller and the store stays restructured.
\<close>

lemma Gp2Dcp_apply_engine_returns:
  assumes "is_dgp problem h" and "distinct (priv_constraints problem)"
    and "engine (DgpCanonMethods_init []) fresh problem (restructure (priv_constraints problem) h)
           = Inr ((equiv_problem, inverse_data), (canon_methods, fresh'))"
  shows "Gp2Dcp_apply is_dgp engine fresh problem h
           = (Inr (equiv_problem,
                   inverse_data\<lparr>priv_problem := Some problem,
                                priv_canon_methods := Some canon_methods\<rparr>),
              (\<lambda>c. if c \<in> set (priv_constraints problem)
                    then (h c)\<lparr>priv_old_args := None\<rparr> else h c))"
  using assms by (simp add: Gp2Dcp_apply_def accepts_def restore_restructure)

lemma Gp2Dcp_apply_engine_raises:
  assumes "is_dgp problem h"
    and "engine (DgpCanonMethods_init []) fresh problem (restructure (priv_constraints problem) h)
           = Inl err"
  shows "Gp2Dcp_apply is_dgp engine fresh problem h
           = (Inl err, restructure (priv_constraints problem) h)"
  using assms by (simp add: Gp2Dcp_apply_def accepts_def)

lemma Gp2Dcp_apply_no_TypeError:
  "fst (Gp2Dcp_apply is_dgp (Canonicalization_apply rules) fresh problem h) \<noteq> Inl (TypeError msg)"
  using Canonicalization_apply_no_TypeError
          [of rules "DgpCanonMethods_init []" fresh problem
              "restructure (priv_constraints problem) h" msg]
  by (auto simp: Gp2Dcp_apply_def DisciplineViolation_def Let_def
           split: sum.splits prod.splits dest: restore_error)

text \<open>
  C1: the claim says that after \<^verbatim>\<open>apply\<close>, returned or raised, every constraint of the
  original problem has the argument list it had before and no residual attribute. On the
  problem whose constraint 1 is \<^verbatim>\<open>sum_smallest(x) <= c\<close> the engine raises, and \<^verbatim>\<open>apply\<close>
  leaves constraint 1 with the argument list \<^verbatim>\<open>[_lhs, _rhs]\<close> and the attribute
  \<^verbatim>\<open>_old_args\<close>. On the problem that lists constraint object 0 twice the engine returns,
  the second loop raises at the second visit, and the object keeps \<^verbatim>\<open>[_lhs, _rhs]\<close>.
\<close>

theorem apply_failure_leaves_constraints_restructured:
  "fst (Gp2Dcp_apply (\<lambda>p h. True) (Canonicalization_apply example_rules) 100
          (example_problem [1]) example_store)
     = Inl (KeyError (Other_atom ''sum_smallest''))
   \<and> args (example_store 1) = [difference 8 example_sum_smallest example_rhs]
   \<and> priv_old_args (example_store 1) = None
   \<and> args (snd (Gp2Dcp_apply (\<lambda>p h. True) (Canonicalization_apply example_rules) 100
                   (example_problem [1]) example_store) 1)
       = [example_sum_smallest, example_rhs]
   \<and> priv_old_args (snd (Gp2Dcp_apply (\<lambda>p h. True) (Canonicalization_apply example_rules) 100
                            (example_problem [1]) example_store) 1)
       = Some [difference 8 example_sum_smallest example_rhs]
   \<and> snd (Gp2Dcp_apply (\<lambda>p h. True) (Canonicalization_apply example_rules) 100
            (example_problem [1]) example_store) 1
       \<noteq> example_store 1
   \<and> fst (Gp2Dcp_apply (\<lambda>p h. True) (Canonicalization_apply example_rules) 100
            (example_problem [0, 0]) example_store)
       = Inl (AttributeError ''_old_args'')
   \<and> args (example_store 0) = [difference 6 example_lhs example_rhs]
   \<and> args (snd (Gp2Dcp_apply (\<lambda>p h. True) (Canonicalization_apply example_rules) 100
                   (example_problem [0, 0]) example_store) 0)
       = [example_lhs, example_rhs]"
  by (simp add: eval_defs)



section \<open>One log-space variable for each original variable\<close>

lemma canonicalize_expr_mono:
  assumes "canonicalize_expr rules e as st = Inr (r, st')"
    and "map_of (priv_variables (fst st)) k = Some v"
  shows "map_of (priv_variables (fst st')) k = Some v"
  using assms
  by (auto simp: canonicalize_expr_def call_method_def
           split: sum.splits if_splits dest: variable_canon_mono)

lemma extends_expr:
  "canonicalize_expr rules e as st = Inr (r, st') \<Longrightarrow> extends table st' \<Longrightarrow> extends table st"
  unfolding extends_def using canonicalize_expr_mono by blast

lemma canonicalize_mono:
  "canonicalize_tree rules e st = Inr (r, st') \<Longrightarrow> extends table st' \<Longrightarrow> extends table st"
  "canonicalize_args rules es st = Inr (rs, st') \<Longrightarrow> extends table st' \<Longrightarrow> extends table st"
proof (induction rules e st and rules es st arbitrary: r st' and rs st'
       rule: canonicalize_tree_canonicalize_args.induct)
  case (1 rules t ob sh i attrs children st)
  from "1.prems"(1) obtain canon_args constrs st1 r2 where
    a: "canonicalize_args rules children st = Inr ((canon_args, constrs), st1)"
    and b: "canonicalize_expr rules (Expr t ob sh i attrs children) canon_args st1 = Inr (r2, st')"
    by (auto split: sum.splits prod.splits)
  from extends_expr [OF b "1.prems"(2)] have "extends table st1" .
  from "1.IH" [OF a this] show ?case .
next
  case (2 rules st)
  then show ?case by simp
next
  case (3 rules x xs st)
  from "3.prems"(1) obtain canon_arg c st1 rs2 where
    a: "canonicalize_tree rules x st = Inr ((canon_arg, c), st1)"
    and b: "canonicalize_args rules xs st1 = Inr (rs2, st')"
    by (auto split: sum.splits prod.splits)
  from "3.IH"(2) [OF a refl refl b "3.prems"(2)] have "extends table st1" .
  from "3.IH"(1) [OF a this] show ?case .
qed

lemma canonicalize_expr_refines:
  assumes "canonicalize_expr rules e as st = Inr (r, st')" and "extends table st'"
  shows "(if expr_type e = Variable
          then (case map_of table (var_key e) of Some v \<Rightarrow> (v, []) | None \<Rightarrow> (e, []))
          else (case map_of CANON_METHODS (expr_type e) of
                  Some m \<Rightarrow> rules m e as | None \<Rightarrow> (e, []))) = r"
proof (cases "expr_type e = Variable")
  case True
  with assms(1) have "variable_canon (fst st) (snd st) e as = (r, st')"
    by (simp add: canonicalize_expr_def call_method_def DgpCanonMethods_getitem_def)
  from variable_canon_result [OF this] obtain v where
    "r = (v, [])" "map_of (priv_variables (fst st')) (var_key e) = Some v" by blast
  with assms(2) True show ?thesis by (simp add: extends_def)
next
  case False
  with assms(1) show ?thesis
    using CANON_METHODS_not_bound [of "expr_type e"]
    by (auto simp: canonicalize_expr_def call_method_def DgpCanonMethods_getitem_def
             split: option.splits if_splits)
qed

lemma canonicalize_refines:
  "canonicalize_tree rules e st = Inr (r, st') \<Longrightarrow> extends table st' \<Longrightarrow>
     r = substitute_tree rules table e"
  "canonicalize_args rules es st = Inr (rs, st') \<Longrightarrow> extends table st' \<Longrightarrow>
     rs = substitute_args rules table es"
proof (induction rules e st and rules es st arbitrary: r st' and rs st'
       rule: canonicalize_tree_canonicalize_args.induct)
  case (1 rules t ob sh i attrs children st)
  let ?e = "Expr t ob sh i attrs children"
  from "1.prems"(1) obtain canon_args constrs st1 canon_expr c where
    a: "canonicalize_args rules children st = Inr ((canon_args, constrs), st1)"
    and b: "canonicalize_expr rules ?e canon_args st1 = Inr ((canon_expr, c), st')"
    and r: "r = (canon_expr, constrs @ c)"
    by (auto split: sum.splits prod.splits)
  from extends_expr [OF b "1.prems"(2)] have "extends table st1" .
  from "1.IH" [OF a this] have s: "substitute_args rules table children = (canon_args, constrs)"
    by simp
  from canonicalize_expr_refines [OF b "1.prems"(2)] r s show ?case
    by (auto simp: Let_def split: option.splits if_splits)
next
  case (2 rules st)
  then show ?case by simp
next
  case (3 rules x xs st)
  from "3.prems"(1) obtain canon_arg c st1 canon_args constrs where
    a: "canonicalize_tree rules x st = Inr ((canon_arg, c), st1)"
    and b: "canonicalize_args rules xs st1 = Inr ((canon_args, constrs), st')"
    and r: "rs = (canon_arg # canon_args, c @ constrs)"
    by (auto split: sum.splits prod.splits)
  from "3.IH"(2) [OF a refl refl b "3.prems"(2)]
  have s2: "substitute_args rules table xs = (canon_args, constrs)" by simp
  from canonicalize_mono(2) [OF b "3.prems"(2)] have "extends table st1" .
  from "3.IH"(1) [OF a this] have "substitute_tree rules table x = (canon_arg, c)" by simp
  with s2 r show ?case by simp
qed

lemma canonicalize_constraints_mono:
  "canonicalize_constraints rules h cs st = Inr (r, st') \<Longrightarrow> extends table st' \<Longrightarrow>
     extends table st"
proof (induction cs arbitrary: st r)
  case Nil
  then show ?case by simp
next
  case (Cons c cs)
  from Cons.prems(1) obtain res st1 rest where
    a: "canonicalize_args rules (args (h c)) st = Inr (res, st1)"
    and b: "canonicalize_constraints rules h cs st1 = Inr (rest, st')"
    by (auto split: sum.splits prod.splits)
  from Cons.IH [OF b Cons.prems(2)] have "extends table st1" .
  from canonicalize_mono(2) [OF a this] show ?case .
qed

lemma canonicalize_constraints_refines:
  "canonicalize_constraints rules h cs st = Inr (r, st') \<Longrightarrow> extends table st' \<Longrightarrow>
     r = substitute_constraints rules table h cs"
proof (induction cs arbitrary: st r)
  case Nil
  then show ?case by simp
next
  case (Cons c cs)
  from Cons.prems(1) obtain canon_args aux st1 rest where
    a: "canonicalize_args rules (args (h c)) st = Inr ((canon_args, aux), st1)"
    and b: "canonicalize_constraints rules h cs st1 = Inr (rest, st')"
    and r: "r = aux @ New_constraint (relop (h c)) canon_args # rest"
    by (auto split: sum.splits prod.splits)
  from Cons.IH [OF b Cons.prems(2)] have s: "rest = substitute_constraints rules table h cs" .
  from canonicalize_constraints_mono [OF b Cons.prems(2)] have "extends table st1" .
  from canonicalize_refines(2) [OF a this]
  have "substitute_args rules table (args (h c)) = (canon_args, aux)" by simp
  with s r show ?case by simp
qed

lemma Canonicalization_apply_refines:
  assumes "Canonicalization_apply rules cm fresh problem h = Inr ((cp, idata), (cm', fresh'))"
  shows "canon_objective cp = fst (substitute_tree rules (priv_variables cm') (objective problem))
       \<and> canon_constraints cp =
           snd (substitute_tree rules (priv_variables cm') (objective problem))
           @ substitute_constraints rules (priv_variables cm') h (priv_constraints problem)"
proof -
  let ?table = "priv_variables cm'"
  from assms obtain canon_obj constrs st1 canon_constrs where
    a: "canonicalize_tree rules (objective problem) (cm, fresh) = Inr ((canon_obj, constrs), st1)"
    and b: "canonicalize_constraints rules h (priv_constraints problem) st1
              = Inr (canon_constrs, (cm', fresh'))"
    and c: "cp = \<lparr>canon_objective = canon_obj, canon_constraints = constrs @ canon_constrs\<rparr>"
    by (auto simp: Canonicalization_apply_def split: sum.splits prod.splits)
  have e: "extends ?table (cm', fresh')" by (simp add: extends_def)
  from canonicalize_constraints_refines [OF b e]
  have 1: "canon_constrs = substitute_constraints rules ?table h (priv_constraints problem)" .
  from canonicalize_constraints_mono [OF b e] have "extends ?table st1" .
  from canonicalize_refines(1) [OF a this]
  have "substitute_tree rules ?table (objective problem) = (canon_obj, constrs)" by simp
  with 1 c show ?thesis by simp
qed

text \<open>
  C2: within one run (one instance of the cache), the variable rule records the log-space
  variable it returns under the identifier of the original variable, no call of the rule
  changes an entry the cache already has, and a lookup of an identifier the cache has
  returns the recorded object and changes neither the cache nor the allocator: no variable
  is minted. So a second lookup of the same identifier returns the same object as the
  first. Consequently, when \<^verbatim>\<open>apply\<close> returns, the rewritten objective and constraints are
  what the rewrite without state produces from the final cache as a fixed table: one and
  the same log-space variable replaces every occurrence of a variable.
\<close>

theorem same_variable_same_log_variable:
  "(variable_canon self fresh e as = ((v, cs), (self', fresh')) \<longrightarrow>
      cs = [] \<and> map_of (priv_variables self') (var_key e) = Some v
      \<and> (\<forall>k w. map_of (priv_variables self) k = Some w
                 \<longrightarrow> map_of (priv_variables self') k = Some w)
      \<and> (var_key e' = var_key e \<longrightarrow>
           variable_canon self' fresh' e' as' = ((v, []), (self', fresh'))))
   \<and> (map_of (priv_variables self') (var_key e') = Some v \<longrightarrow>
        variable_canon self' fresh' e' as' = ((v, []), (self', fresh')))
   \<and> (Gp2Dcp_apply is_dgp (Canonicalization_apply rules) fresh problem h
         = (Inr (equiv_problem, inverse_data), h') \<longrightarrow>
       (\<exists>canon_methods. priv_canon_methods inverse_data = Some canon_methods
          \<and> canon_objective equiv_problem
              = fst (substitute_tree rules (priv_variables canon_methods) (objective problem))
          \<and> canon_constraints equiv_problem
              = snd (substitute_tree rules (priv_variables canon_methods) (objective problem))
                @ substitute_constraints rules (priv_variables canon_methods)
                    (restructure (priv_constraints problem) h) (priv_constraints problem)))"
proof (intro conjI impI allI)
  assume a: "variable_canon self fresh e as = ((v, cs), (self', fresh'))"
  from variable_canon_result [OF a]
  show "cs = []" and "map_of (priv_variables self') (var_key e) = Some v"
    by auto
  show "map_of (priv_variables self') k = Some w"
    if "map_of (priv_variables self) k = Some w" for k w
    using variable_canon_mono [OF a that] by simp
  show "variable_canon self' fresh' e' as' = ((v, []), (self', fresh'))"
    if "var_key e' = var_key e"
    using variable_canon_again [OF a that] .
next
  assume "map_of (priv_variables self') (var_key e') = Some v"
  then show "variable_canon self' fresh' e' as' = ((v, []), (self', fresh'))"
    by (simp add: variable_canon_def)
next
  assume a: "Gp2Dcp_apply is_dgp (Canonicalization_apply rules) fresh problem h
         = (Inr (equiv_problem, inverse_data), h')"
  let ?h1 = "restructure (priv_constraints problem) h"
  from a obtain idata cm' fresh' where
    e: "Canonicalization_apply rules (DgpCanonMethods_init []) fresh problem ?h1
          = Inr ((equiv_problem, idata), (cm', fresh'))"
    and i: "inverse_data = idata\<lparr>priv_problem := Some problem, priv_canon_methods := Some cm'\<rparr>"
    by (auto simp: Gp2Dcp_apply_def Let_def split: if_splits sum.splits prod.splits)
  from Canonicalization_apply_refines [OF e] i
  show "\<exists>canon_methods. priv_canon_methods inverse_data = Some canon_methods
          \<and> canon_objective equiv_problem
              = fst (substitute_tree rules (priv_variables canon_methods) (objective problem))
          \<and> canon_constraints equiv_problem
              = snd (substitute_tree rules (priv_variables canon_methods) (objective problem))
                @ substitute_constraints rules (priv_variables canon_methods)
                    ?h1 (priv_constraints problem)"
    by simp
qed

text \<open>
  The witness: \<open>x\<close> is first looked up on an instance that already holds \<open>y\<close>; another
  node with the identifier of \<open>x\<close> then gets the object minted for \<open>x\<close>; and the example
  problem is rewritten with one object for the three occurrences of \<open>x\<close>.
\<close>

theorem same_variable_same_log_variable_witness:
  "variable_canon \<lparr>dict_items = [], priv_variables = [(2, example_log_y)]\<rparr> 100 example_x []
       = ((example_log_x, []), (example_canon_methods_yx, 101))
   \<and> map_of (priv_variables example_canon_methods_yx) (var_key example_x) = Some example_log_x
   \<and> map_of (priv_variables example_canon_methods_yx) 2 = Some example_log_y
   \<and> var_key (Expr Variable 9 [] 1 [''pos''] []) = var_key example_x
   \<and> map_of (priv_variables example_canon_methods_yx) (var_key (Expr Variable 9 [] 1 [''pos''] []))
       = Some example_log_x
   \<and> variable_canon example_canon_methods_yx 101 (Expr Variable 9 [] 1 [''pos''] []) []
       = ((example_log_x, []), (example_canon_methods_yx, 101))
   \<and> fst (Gp2Dcp_apply (\<lambda>p h. True) (Canonicalization_apply example_rules) 100
            (example_problem [0]) example_store)
       = Inr (example_equiv_problem,
              \<lparr>id_map = [2, 1], priv_problem = Some (example_problem [0]),
               priv_canon_methods = Some example_canon_methods\<rparr>)
   \<and> canon_objective example_equiv_problem
       = fst (substitute_tree example_rules (priv_variables example_canon_methods)
               (objective (example_problem [0])))
   \<and> canon_constraints example_equiv_problem
       = snd (substitute_tree example_rules (priv_variables example_canon_methods)
               (objective (example_problem [0])))
         @ substitute_constraints example_rules (priv_variables example_canon_methods)
             (restructure (priv_constraints (example_problem [0])) example_store)
             (priv_constraints (example_problem [0]))"
proof -
  have a: "variable_canon \<lparr>dict_items = [], priv_variables = [(2, example_log_y)]\<rparr> 100
             example_x []
       = ((example_log_x, []), (example_canon_methods_yx, 101))"
    by (simp add: variable_canon_def new_Variable_def var_key_def example_canon_methods_yx_def
          example_x_def example_log_x_def example_log_y_def Let_def)
  have k: "var_key (Expr Variable 9 [] 1 [''pos''] []) = var_key example_x"
    by (simp add: var_key_def example_x_def)
  have y: "map_of (priv_variables \<lparr>dict_items = [], priv_variables = [(2, example_log_y)]\<rparr>) 2
             = Some example_log_y"
    by simp
  have r: "fst (Gp2Dcp_apply (\<lambda>p h. True) (Canonicalization_apply example_rules) 100
            (example_problem [0]) example_store)
       = Inr (example_equiv_problem,
              \<lparr>id_map = [2, 1], priv_problem = Some (example_problem [0]),
               priv_canon_methods = Some example_canon_methods\<rparr>)"
    by (simp add: eval_defs)
  have p: "Gp2Dcp_apply (\<lambda>p h. True) (Canonicalization_apply example_rules) 100
            (example_problem [0]) example_store
       = (Inr (example_equiv_problem,
              \<lparr>id_map = [2, 1], priv_problem = Some (example_problem [0]),
               priv_canon_methods = Some example_canon_methods\<rparr>),
          snd (Gp2Dcp_apply (\<lambda>p h. True) (Canonicalization_apply example_rules) 100
                 (example_problem [0]) example_store))"
    using r by (simp add: prod_eq_iff)
  show ?thesis
    using a k y r p
      same_variable_same_log_variable
        [of "\<lparr>dict_items = [], priv_variables = [(2, example_log_y)]\<rparr>" 100 example_x "[]"
            example_log_x "[]" example_canon_methods_yx 101
            "Expr Variable 9 [] 1 [''pos''] []" "[]"
            "\<lambda>p h. True" example_rules "example_problem [0]" example_store
            example_equiv_problem
            "\<lparr>id_map = [2, 1], priv_problem = Some (example_problem [0]),
              priv_canon_methods = Some example_canon_methods\<rparr>"
            "snd (Gp2Dcp_apply (\<lambda>p h. True) (Canonicalization_apply example_rules) 100
                   (example_problem [0]) example_store)"]
    by simp
qed

end
